theory Spec2Isabelle
  imports Main
begin

section \<open>Python text\<close>

text \<open>
  A Python \<open>str\<close> is modelled as the list of its code points, restricted to the code
  points below 256 (HOL's \<open>char\<close>). \<open>isspace\<close>, \<open>strip\<close> and \<open>lower\<close> are
  Python's \<open>str.isspace\<close>, \<open>str.strip()\<close> and \<open>str.lower()\<close> on that range;
  \<open>str_in sub s\<close> is the test \<open>sub in s\<close>.
\<close>

definition isspace :: "char \<Rightarrow> bool" where
  "isspace c =
     (let n = (of_char c :: nat)
      in (9 \<le> n \<and> n \<le> 13) \<or> (28 \<le> n \<and> n \<le> 32) \<or> n = 133 \<or> n = 160)"

definition strip :: "string \<Rightarrow> string" where
  "strip s = rev (dropWhile isspace (rev (dropWhile isspace s)))"

definition lower_char :: "char \<Rightarrow> char" where
  "lower_char c =
     (let n = (of_char c :: nat)
      in if (65 \<le> n \<and> n \<le> 90) \<or> (192 \<le> n \<and> n \<le> 222 \<and> n \<noteq> 215)
         then char_of (n + 32) else c)"

definition lower :: "string \<Rightarrow> string" where
  "lower s = map lower_char s"

fun startswith :: "string \<Rightarrow> string \<Rightarrow> bool" where
  "startswith s [] = True"
| "startswith [] (p # ps) = False"
| "startswith (c # cs) (p # ps) = (c = p \<and> startswith cs ps)"

fun str_in :: "string \<Rightarrow> string \<Rightarrow> bool" where
  "str_in sub [] = (sub = [])"
| "str_in sub (c # cs) = (startswith (c # cs) sub \<or> str_in sub cs)"


section \<open>Exceptions and Python values\<close>

text \<open>
  An \<open>exc\<close> is an instance of a subclass of Python's \<open>Exception\<close>: its class name and
  its textual form \<open>str(e)\<close>. These are exactly what the handlers \<open>except Exception\<close>
  of the client and of the terminal server catch. Interrupts and task cancellation
  (\<open>BaseException\<close> outside \<open>Exception\<close>) are not modelled.
\<close>

datatype exc = Exc (exc_class: string) (exc_str: string)

text \<open>
  The values an agent response is built from: the types \<open>json\<close> encodes natively, and
  objects of any other class, which carry their class name, the value of their
  \<open>content\<close> attribute when they have one (\<open>hasattr(o, "content")\<close>), the
  exception their \<open>__str__\<close> raises, if any, and the exception their \<open>__repr__\<close>
  raises, if any. Dictionaries are keyed by strings, in insertion order.
\<close>

datatype pyval =
    PNone
  | PBool bool
  | PInt int
  | PStr string
  | PList "pyval list"
  | PDict "(string \<times> pyval) list"
  | PObj string "pyval option" "exc option" "exc option"

datatype json =
    JNull
  | JBool bool
  | JInt int
  | JStr string
  | JArr "json list"
  | JObj "(string \<times> json) list"

fun class_name :: "pyval \<Rightarrow> string" where
  "class_name PNone = ''NoneType''"
| "class_name (PBool b) = ''bool''"
| "class_name (PInt i) = ''int''"
| "class_name (PStr s) = ''str''"
| "class_name (PList xs) = ''list''"
| "class_name (PDict kvs) = ''dict''"
| "class_name (PObj cls a se re) = cls"

text \<open>\<open>content_of o\<close> is \<open>Some o.content\<close> when \<open>hasattr(o, "content")\<close>, else \<open>None\<close>.\<close>

fun content_of :: "pyval \<Rightarrow> pyval option" where
  "content_of (PObj cls a se re) = a"
| "content_of v = None"


section \<open>The custom JSON encoder\<close>

text \<open>
  \<open>super_default\<close> is \<open>json.JSONEncoder.default\<close>, which raises \<open>TypeError\<close>;
  \<open>default\<close> is \<open>CustomEncoder.default\<close>.
\<close>

definition not_serializable :: "pyval \<Rightarrow> exc" where
  "not_serializable v =
     Exc ''TypeError'' (''Object of type '' @ class_name v @ '' is not JSON serializable'')"

definition super_default :: "pyval \<Rightarrow> exc + pyval" where
  "super_default v = Inl (not_serializable v)"

definition default :: "pyval \<Rightarrow> exc + pyval" where
  "default v =
     (case content_of v of
        Some c \<Rightarrow> Inr (PDict [(''type'', PStr (class_name v)), (''content'', c)])
      | None \<Rightarrow> super_default v)"

text \<open>
  \<open>json_dumps\<close> is \<open>json.dumps(response, indent=2, cls=CustomEncoder)\<close> up to the
  layout of the text: it yields the JSON document as a tree. Natively encodable values
  are encoded structurally, left to right, the first failure aborting the whole
  encoding; any other object is replaced by what \<open>default\<close> returns for it, which is
  encoded in turn (lemma \<open>json_dumps_PObj\<close> below).
\<close>

fun json_dumps :: "pyval \<Rightarrow> exc + json"
  and dumps_list :: "pyval list \<Rightarrow> exc + json list"
  and dumps_items :: "(string \<times> pyval) list \<Rightarrow> exc + (string \<times> json) list" where
  "json_dumps PNone = Inr JNull"
| "json_dumps (PBool b) = Inr (JBool b)"
| "json_dumps (PInt i) = Inr (JInt i)"
| "json_dumps (PStr s) = Inr (JStr s)"
| "json_dumps (PList xs) = (case dumps_list xs of Inl e \<Rightarrow> Inl e | Inr js \<Rightarrow> Inr (JArr js))"
| "json_dumps (PDict kvs) = (case dumps_items kvs of Inl e \<Rightarrow> Inl e | Inr ms \<Rightarrow> Inr (JObj ms))"
| "json_dumps (PObj cls None se re) = Inl (not_serializable (PObj cls None se re))"
| "json_dumps (PObj cls (Some c) se re) =
     (case json_dumps c of
        Inl e \<Rightarrow> Inl e
      | Inr j \<Rightarrow> Inr (JObj [(''type'', JStr cls), (''content'', j)]))"
| "dumps_list [] = Inr []"
| "dumps_list (v # vs) =
     (case json_dumps v of
        Inl e \<Rightarrow> Inl e
      | Inr j \<Rightarrow> (case dumps_list vs of Inl e \<Rightarrow> Inl e | Inr js \<Rightarrow> Inr (j # js)))"
| "dumps_items [] = Inr []"
| "dumps_items (kv # kvs) =
     (case json_dumps (snd kv) of
        Inl e \<Rightarrow> Inl e
      | Inr j \<Rightarrow>
          (case dumps_items kvs of Inl e \<Rightarrow> Inl e | Inr ms \<Rightarrow> Inr ((fst kv, j) # ms)))"



section \<open>The client: \<open>run_agent\<close>\<close>

text \<open>
  \<open>repr_error v\<close> is the exception that \<open>repr(v)\<close> raises, if any: the built-in
  types render their elements in order with \<open>repr\<close>, and an object of another class
  does what its \<open>__repr__\<close> does. \<open>str_error v\<close> is the exception that \<open>str(v)\<close>
  raises, if any: \<open>str\<close> of an object calls its \<open>__str__\<close>, and \<open>str\<close> of a
  list, a dictionary, a number or \<open>None\<close> is its \<open>repr\<close>.
\<close>

fun repr_error :: "pyval \<Rightarrow> exc option"
  and repr_error_list :: "pyval list \<Rightarrow> exc option"
  and repr_error_items :: "(string \<times> pyval) list \<Rightarrow> exc option" where
  "repr_error PNone = None"
| "repr_error (PBool b) = None"
| "repr_error (PInt i) = None"
| "repr_error (PStr s) = None"
| "repr_error (PList xs) = repr_error_list xs"
| "repr_error (PDict kvs) = repr_error_items kvs"
| "repr_error (PObj cls a se re) = re"
| "repr_error_list [] = None"
| "repr_error_list (v # vs) =
     (case repr_error v of Some e \<Rightarrow> Some e | None \<Rightarrow> repr_error_list vs)"
| "repr_error_items [] = None"
| "repr_error_items (kv # kvs) =
     (case repr_error (snd kv) of Some e \<Rightarrow> Some e | None \<Rightarrow> repr_error_items kvs)"

fun str_error :: "pyval \<Rightarrow> exc option" where
  "str_error (PObj cls a se re) = se"
| "str_error v = repr_error v"

text \<open>
  The text handed to \<open>print\<close> after a response: the JSON document when
  \<open>json.dumps\<close> returned, \<open>str(response)\<close> when it raised.
\<close>

datatype formatted = Json_text json | Plain_text pyval

text \<open>
  The statement \<open>try: formatted = json.dumps(...) except Exception: formatted =
  str(response)\<close> (lines 147 to 150 and 178 to 181). The call of \<open>str\<close> is inside
  the handler and under no other \<open>try\<close>: what it raises leaves the statement.
\<close>

definition format_response :: "pyval \<Rightarrow> exc + formatted" where
  "format_response response =
     (case json_dumps response of
        Inr j \<Rightarrow> Inr (Json_text j)
      | Inl e \<Rightarrow>
          (case str_error response of
             Some e' \<Rightarrow> Inl e'
           | None \<Rightarrow> Inr (Plain_text response)))"

text \<open>
  What \<open>run_agent\<close> prints, one constructor per \<open>print\<close> call of the source:
  \<open>Banner\<close> is "MCP Client Started! Type 'quit' to exit.", \<open>Eof_notice\<close> is
  "EOF received. Exiting.", \<open>Advisory\<close> is the "[Groq rate-limit/quota error]" block,
  \<open>Response_header\<close> is "Response:", and \<open>Formatted f\<close> is \<open>print(formatted)\<close>.
  The standard output is taken to accept every text: \<open>print\<close> itself does not raise.
\<close>

datatype printed = Banner | Eof_notice | Advisory | Response_header | Formatted formatted

datatype phase = Disconnected | Initializing | Ready | Closed

record session =
  phase :: phase
  child_running :: bool
  channel_open :: bool

text \<open>
  The observable state of one run: the session with the tool server, how often it was
  closed, what was printed, the queries passed to \<open>agent.ainvoke\<close> in order, and the
  number of calls of \<open>input\<close>.
\<close>

record state =
  session :: session
  closes :: nat
  printed :: "printed list"
  dispatched :: "string list"
  prompts :: nat

text \<open>
  The collaborators of \<open>run_agent\<close>. Each setup step either raises or succeeds;
  \<open>ainvoke ev n q\<close> is what \<open>agent.ainvoke\<close> does on query \<open>q\<close> when \<open>n\<close> queries
  were dispatched before it: it raises or returns a response.
\<close>

record env =
  stdio_client :: "exc option"
  initialize :: "exc option"
  load_mcp_tools :: "exc option"
  create_react_agent :: "exc option"
  ainvoke :: "nat \<Rightarrow> string \<Rightarrow> exc + pyval"

text \<open>
  How \<open>run_agent\<close> ends: it returns, or an exception leaves it. \<open>asyncio.run\<close>
  re-raises that exception at top level, so the interpreter prints the traceback and
  exits with status 1; otherwise the script ends with status 0. \<open>Raised e\<close> names the
  exception \<open>e\<close> that left the body; the task groups of the \<open>mcp\<close> library may
  hand it on wrapped in an exception group, with the same exit status.
\<close>

datatype outcome = Returned | Raised exc

fun exit_status :: "outcome \<Rightarrow> nat" where
  "exit_status Returned = 0"
| "exit_status (Raised e) = 1"

definition is_rate_limit :: "string \<Rightarrow> bool" where
  "is_rate_limit msg =
     (str_in ''429'' msg \<or> str_in ''rate limit'' (lower msg) \<or> str_in ''quota'' (lower msg))"

text \<open>The branch \<open>if args.once is not None\<close> (lines 143 to 152).\<close>

definition one_shot :: "env \<Rightarrow> string \<Rightarrow> state \<Rightarrow> outcome \<times> state" where
  "one_shot ev once s =
     (let query = strip once in
      if query \<noteq> [] then
        (let s1 = s\<lparr>dispatched := dispatched s @ [query]\<rparr> in
         case ainvoke ev (length (dispatched s)) query of
           Inl e \<Rightarrow> (Raised e, s1)
         | Inr response \<Rightarrow>
             (case format_response response of
                Inl e \<Rightarrow> (Raised e, s1)
              | Inr formatted \<Rightarrow>
                  (Returned, s1\<lparr>printed := printed s1 @ [Formatted formatted]\<rparr>)))
      else (Returned, s))"

text \<open>
  The \<open>while True\<close> loop (lines 155 to 183) over the lines that \<open>input\<close> will return;
  when they are used up \<open>input\<close> raises \<open>EOFError\<close>.
\<close>

fun chat_loop :: "env \<Rightarrow> string list \<Rightarrow> state \<Rightarrow> outcome \<times> state" where
  "chat_loop ev [] s =
     (Returned, s\<lparr>prompts := Suc (prompts s), printed := printed s @ [Eof_notice]\<rparr>)"
| "chat_loop ev (line # lines) s =
     (let s1 = s\<lparr>prompts := Suc (prompts s)\<rparr>;
          query = strip line
      in if lower query = ''quit'' then (Returned, s1)
         else
           (let s2 = s1\<lparr>dispatched := dispatched s1 @ [query]\<rparr> in
            case ainvoke ev (length (dispatched s1)) query of
              Inl e \<Rightarrow>
                if is_rate_limit (exc_str e)
                then chat_loop ev lines (s2\<lparr>printed := printed s2 @ [Advisory]\<rparr>)
                else (Raised e, s2)
            | Inr response \<Rightarrow>
                (case format_response response of
                   Inl e \<Rightarrow> (Raised e, s2)
                 | Inr formatted \<Rightarrow>
                     chat_loop ev lines
                       (s2\<lparr>printed := printed s2 @
                            [Response_header, Formatted formatted]\<rparr>))))"

text \<open>
  Modelled from the spec: the release of the session, which belongs to the \<open>mcp\<close>
  library (the exits of \<open>stdio_client\<close> and \<open>ClientSession\<close>) and not to the
  repository. Following sections 3 and 4.1 of the spec, \<open>close\<close> closes the channel,
  terminates the child process and leaves the session \<open>Closed\<close>.
\<close>

definition close :: "session \<Rightarrow> session" where
  "close ss = ss\<lparr>phase := Closed, child_running := False, channel_open := False\<rparr>"

definition initial_state :: state where
  "initial_state =
     \<lparr>session = \<lparr>phase = Disconnected, child_running = False, channel_open = False\<rparr>,
      closes = 0, printed = [], dispatched = [], prompts = 0\<rparr>"

text \<open>
  The body of the two \<open>async with\<close> blocks (lines 136 to 183): the handshake, the
  discovery of the tools, the creation of the agent, then one of the two modes.
  \<open>once\<close> is \<open>args.once\<close>.
\<close>

definition session_body :: "env \<Rightarrow> string option \<Rightarrow> string list \<Rightarrow> state \<Rightarrow> outcome \<times> state" where
  "session_body ev once lines s =
     (case initialize ev of
        Some e \<Rightarrow> (Raised e, s)
      | None \<Rightarrow>
          (let s1 = s\<lparr>session := (session s)\<lparr>phase := Ready\<rparr>\<rparr> in
           case load_mcp_tools ev of
             Some e \<Rightarrow> (Raised e, s1)
           | None \<Rightarrow>
               (case create_react_agent ev of
                  Some e \<Rightarrow> (Raised e, s1)
                | None \<Rightarrow>
                    (case once of
                       Some q \<Rightarrow> one_shot ev q s1
                     | None \<Rightarrow> chat_loop ev lines (s1\<lparr>printed := printed s1 @ [Banner]\<rparr>)))))"

text \<open>
  \<open>run_agent\<close>: when the tool server cannot be started nothing was opened and the
  exception leaves; otherwise the body runs inside the \<open>async with\<close> blocks, whose
  exits run however the body ends, whether it returns or raises.
\<close>

definition run_agent :: "env \<Rightarrow> string option \<Rightarrow> string list \<Rightarrow> outcome \<times> state" where
  "run_agent ev once lines =
     (case stdio_client ev of
        Some e \<Rightarrow> (Raised e, initial_state)
      | None \<Rightarrow>
          (let s0 = initial_state\<lparr>session :=
                      \<lparr>phase = Initializing, child_running = True, channel_open = True\<rparr>\<rparr>;
               (r, s1) = session_body ev once lines s0
           in (r, s1\<lparr>session := close (session s1), closes := Suc (closes s1)\<rparr>)))"



section \<open>The terminal server: paths\<close>

text \<open>
  An absolute path is the list of its components below \<open>/\<close>; the empty list is \<open>/\<close>
  itself. \<open>parts\<close> are the components \<open>pathlib\<close> reads off a string: it splits at
  \<open>/\<close> and drops empty components and \<open>.\<close>, keeping \<open>..\<close>.
\<close>

type_synonym path = "string list"

fun split_slash :: "string \<Rightarrow> string list" where
  "split_slash [] = [[]]"
| "split_slash (c # cs) =
     (if c = CHR ''/'' then [] # split_slash cs
      else (case split_slash cs of
              [] \<Rightarrow> [[c]]
            | w # ws \<Rightarrow> (c # w) # ws))"

definition parts :: "string \<Rightarrow> string list" where
  "parts s = filter (\<lambda>w. w \<noteq> [] \<and> w \<noteq> ''.'') (split_slash s)"

text \<open>
  \<open>root / relative_path\<close>: joining an absolute string discards the left operand.
  The result is absolute, so \<open>expanduser\<close> leaves it as it is.
\<close>

definition joinpath :: "path \<Rightarrow> string \<Rightarrow> string list" where
  "joinpath root rel = (if startswith rel ''/'' then parts rel else root @ parts rel)"

text \<open>\<open>Path.parents\<close>: the proper ancestors, nearest first, ending with \<open>/\<close>.\<close>

definition parents :: "path \<Rightarrow> path list" where
  "parents p = map (\<lambda>n. take n p) (rev [0..<length p])"

fun path_str :: "path \<Rightarrow> string" where
  "path_str [] = ''/''"
| "path_str (w # ws) = concat (map (\<lambda>x. CHR ''/'' # x) (w # ws))"

text \<open>
  \<open>_safe_path\<close>. \<open>resolve\<close> is \<open>Path.resolve()\<close> on an absolute path given by its
  components: what it returns depends on the symbolic links of the machine, so it is a
  parameter, and it may raise. \<open>root\<close> is what \<open>_workspace_root()\<close> returned.
\<close>

definition safe_path :: "(string list \<Rightarrow> exc + path) \<Rightarrow> path \<Rightarrow> string \<Rightarrow> exc + path" where
  "safe_path resolve root relative_path =
     (case resolve (joinpath root relative_path) of
        Inl e \<Rightarrow> Inl e
      | Inr target \<Rightarrow>
          if root \<notin> set (parents target) \<and> target \<noteq> root
          then Inl (Exc ''ValueError'' (''Path must be under workspace: '' @ path_str root))
          else Inr target)"

text \<open>
  \<open>Path.resolve()\<close> where no component is a symbolic link: \<open>..\<close> steps to the parent,
  and the parent of \<open>/\<close> is \<open>/\<close>.
\<close>

fun normalise :: "path \<Rightarrow> string list \<Rightarrow> path" where
  "normalise acc [] = acc"
| "normalise acc (w # ws) =
     (if w = ''..'' then normalise (butlast acc) ws else normalise (acc @ [w]) ws)"

definition resolve_lexical :: "string list \<Rightarrow> exc + path" where
  "resolve_lexical raw = Inr (normalise [] raw)"


section \<open>The terminal server: files\<close>

text \<open>
  A file system without symbolic links or permissions: a map from absolute paths to
  files (with their text) and directories; \<open>/\<close> is always a directory.
\<close>

datatype node = File string | Dir

type_synonym fs = "path \<rightharpoonup> node"

datatype os_error =
    FileNotFoundError path
  | FileExistsError path
  | NotADirectoryError path
  | IsADirectoryError path

definition quoted :: "path \<Rightarrow> string" where
  "quoted p = [CHR 0x27] @ path_str p @ [CHR 0x27]"

fun os_error_str :: "os_error \<Rightarrow> string" where
  "os_error_str (FileNotFoundError p) = ''[Errno 2] No such file or directory: '' @ quoted p"
| "os_error_str (FileExistsError p) = ''[Errno 17] File exists: '' @ quoted p"
| "os_error_str (NotADirectoryError p) = ''[Errno 20] Not a directory: '' @ quoted p"
| "os_error_str (IsADirectoryError p) = ''[Errno 21] Is a directory: '' @ quoted p"

text \<open>
  The walk to the parent of \<open>p\<close>: the first proper ancestor below \<open>/\<close> that is not a
  directory makes every system call on \<open>p\<close> fail, with \<open>ENOENT\<close> when it is missing
  and \<open>ENOTDIR\<close> when it is a file.
\<close>

definition dir_error :: "fs \<Rightarrow> path \<Rightarrow> os_error option" where
  "dir_error fs p =
     (case find (\<lambda>q. fs q \<noteq> Some Dir) (map (\<lambda>n. take n p) [1..<length p]) of
        None \<Rightarrow> None
      | Some q \<Rightarrow> Some (if fs q = None then FileNotFoundError p else NotADirectoryError p))"

definition stat :: "fs \<Rightarrow> path \<Rightarrow> os_error + node" where
  "stat fs p =
     (if p = [] then Inr Dir
      else (case dir_error fs p of
              Some e \<Rightarrow> Inl e
            | None \<Rightarrow> (case fs p of None \<Rightarrow> Inl (FileNotFoundError p) | Some n \<Rightarrow> Inr n)))"

text \<open>\<open>Path.exists()\<close> and \<open>Path.is_dir()\<close>.\<close>

definition exists :: "fs \<Rightarrow> path \<Rightarrow> bool" where
  "exists fs p = (case stat fs p of Inl e \<Rightarrow> False | Inr n \<Rightarrow> True)"

definition is_dir :: "fs \<Rightarrow> path \<Rightarrow> bool" where
  "is_dir fs p = (stat fs p = Inr Dir)"

text \<open>\<open>os.mkdir\<close>: the error raised, if any, and the file system afterwards.\<close>

definition os_mkdir :: "fs \<Rightarrow> path \<Rightarrow> os_error option \<times> fs" where
  "os_mkdir fs p =
     (if p = [] then (Some (FileExistsError p), fs)
      else (case dir_error fs p of
              Some e \<Rightarrow> (Some e, fs)
            | None \<Rightarrow>
                if fs p \<noteq> None then (Some (FileExistsError p), fs)
                else (None, fs(p \<mapsto> Dir))))"

text \<open>
  \<open>Path.mkdir(parents=False, exist_ok=True)\<close> and
  \<open>Path.mkdir(parents=True, exist_ok=True)\<close>, as \<open>pathlib\<close> implements them: try
  \<open>os.mkdir\<close>; on \<open>FileNotFoundError\<close> create the parent first (when asked to); on
  any other error give up unless the path is a directory already.
\<close>

definition mkdir_exist_ok :: "fs \<Rightarrow> path \<Rightarrow> os_error option \<times> fs" where
  "mkdir_exist_ok fs p =
     (case os_mkdir fs p of
        (None, fs') \<Rightarrow> (None, fs')
      | (Some e, fs') \<Rightarrow>
          (case e of
             FileNotFoundError q \<Rightarrow> (Some e, fs')
           | _ \<Rightarrow> if is_dir fs' p then (None, fs') else (Some e, fs')))"

function mkdir_parents :: "fs \<Rightarrow> path \<Rightarrow> os_error option \<times> fs" where
  "mkdir_parents fs p =
     (case os_mkdir fs p of
        (None, fs') \<Rightarrow> (None, fs')
      | (Some e, fs') \<Rightarrow>
          (case e of
             FileNotFoundError q \<Rightarrow>
               if butlast p = p then (Some e, fs')
               else (case mkdir_parents fs' (butlast p) of
                       (Some e', fs'') \<Rightarrow> (Some e', fs'')
                     | (None, fs'') \<Rightarrow> mkdir_exist_ok fs'' p)
           | _ \<Rightarrow> if is_dir fs' p then (None, fs') else (Some e, fs')))"
  by pat_completeness auto
termination
  by (relation "measure (\<lambda>(fs, p). length p)") (auto simp: butlast_conv_take)

declare mkdir_parents.simps [simp del]

text \<open>
  \<open>open(path, mode)\<close> followed by one \<open>write\<close> and the close: \<open>append_mode\<close> is mode
  \<open>"a"\<close>, otherwise mode \<open>"w"\<close>.
\<close>

definition write_text :: "fs \<Rightarrow> path \<Rightarrow> bool \<Rightarrow> string \<Rightarrow> os_error option \<times> fs" where
  "write_text fs p append_mode content =
     (if p = [] then (Some (IsADirectoryError p), fs)
      else (case dir_error fs p of
              Some e \<Rightarrow> (Some e, fs)
            | None \<Rightarrow>
                (case fs p of
                   Some Dir \<Rightarrow> (Some (IsADirectoryError p), fs)
                 | Some (File old) \<Rightarrow>
                     (None, fs(p \<mapsto> File (if append_mode then old @ content else content)))
                 | None \<Rightarrow> (None, fs(p \<mapsto> File content)))))"

definition read_text :: "fs \<Rightarrow> path \<Rightarrow> os_error + string" where
  "read_text fs p =
     (case stat fs p of
        Inl e \<Rightarrow> Inl e
      | Inr Dir \<Rightarrow> Inl (IsADirectoryError p)
      | Inr (File text) \<Rightarrow> Inr text)"

text \<open>
  The three file tools. Each returns its text and the file system it leaves; every
  exception raised inside is caught and its text returned.
\<close>

definition create_file ::
  "(string list \<Rightarrow> exc + path) \<Rightarrow> path \<Rightarrow> fs \<Rightarrow> string \<Rightarrow> string \<Rightarrow> bool \<Rightarrow> string \<times> fs" where
  "create_file resolve root fs filename content overwrite =
     (case safe_path resolve root filename of
        Inl e \<Rightarrow> (exc_str e, fs)
      | Inr path \<Rightarrow>
          (case mkdir_parents fs (butlast path) of
             (Some e, fs1) \<Rightarrow> (os_error_str e, fs1)
           | (None, fs1) \<Rightarrow>
               if exists fs1 path \<and> \<not> overwrite
               then (''File already exists: '' @ filename @ '' (set overwrite=true to replace)'',
                     fs1)
               else (case write_text fs1 path False content of
                       (Some e, fs2) \<Rightarrow> (os_error_str e, fs2)
                     | (None, fs2) \<Rightarrow> (''Created: '' @ filename, fs2))))"

definition write_file ::
  "(string list \<Rightarrow> exc + path) \<Rightarrow> path \<Rightarrow> fs \<Rightarrow> string \<Rightarrow> string \<Rightarrow> bool \<Rightarrow> string \<times> fs" where
  "write_file resolve root fs filename content append_mode =
     (case safe_path resolve root filename of
        Inl e \<Rightarrow> (exc_str e, fs)
      | Inr path \<Rightarrow>
          (case mkdir_parents fs (butlast path) of
             (Some e, fs1) \<Rightarrow> (os_error_str e, fs1)
           | (None, fs1) \<Rightarrow>
               (case write_text fs1 path append_mode content of
                  (Some e, fs2) \<Rightarrow> (os_error_str e, fs2)
                | (None, fs2) \<Rightarrow> (''Wrote: '' @ filename, fs2))))"

text \<open>\<open>text[:n]\<close> for a Python integer \<open>n\<close>: a negative \<open>n\<close> counts from the end.\<close>

definition slice_to :: "string \<Rightarrow> int \<Rightarrow> string" where
  "slice_to text n =
     (if 0 \<le> n then take (nat n) text else take (nat (int (length text) + n)) text)"

definition read_file ::
  "(string list \<Rightarrow> exc + path) \<Rightarrow> path \<Rightarrow> fs \<Rightarrow> string \<Rightarrow> int \<Rightarrow> string" where
  "read_file resolve root fs filename max_chars =
     (case safe_path resolve root filename of
        Inl e \<Rightarrow> exc_str e
      | Inr path \<Rightarrow>
          if \<not> exists fs path then ''Not found: '' @ filename
          else (case read_text fs path of
                  Inl e \<Rightarrow> os_error_str e
                | Inr text \<Rightarrow>
                    if int (length text) > max_chars
                    then slice_to text max_chars @ [CHR 0x0A] @ ''... (truncated) ...''
                    else text))"

section \<open>Sample collaborators and files\<close>

text \<open>
  \<open>setup_ok\<close>: the tool server starts, the handshake and the discovery succeed and
  the agent is created.
\<close>

definition setup_ok :: "env \<Rightarrow> bool" where
  "setup_ok ev \<longleftrightarrow>
     stdio_client ev = None \<and> initialize ev = None \<and> load_mcp_tools ev = None \<and>
     create_react_agent ev = None"

definition demo_env :: "(nat \<Rightarrow> string \<Rightarrow> exc + pyval) \<Rightarrow> env" where
  "demo_env agent =
     \<lparr>stdio_client = None, initialize = None, load_mcp_tools = None,
      create_react_agent = None, ainvoke = agent\<rparr>"

definition echo_agent :: "nat \<Rightarrow> string \<Rightarrow> exc + pyval" where
  "echo_agent n q =
     Inr (PDict [(''messages'',
                  PList [PObj ''HumanMessage'' (Some (PStr q)) None None,
                         PObj ''AIMessage'' (Some (PStr ''done'')) None None])])"



definition rate_limited_agent :: "nat \<Rightarrow> string \<Rightarrow> exc + pyval" where
  "rate_limited_agent n q =
     Inl (Exc ''RateLimitError'' ''Error code: 429 - Rate limit reached'')"

definition failing_agent :: "nat \<Rightarrow> string \<Rightarrow> exc + pyval" where
  "failing_agent n q = Inl (Exc ''ConnectionError'' ''Connection refused'')"

definition broken_server :: env where
  "broken_server =
     \<lparr>stdio_client = None,
      initialize = Some (Exc ''McpError'' ''Connection closed''),
      load_mcp_tools = None, create_react_agent = None, ainvoke = echo_agent\<rparr>"

definition demo_root :: path where
  "demo_root = [''home'', ''user'', ''mcp'', ''workspace'']"

definition demo_fs :: fs where
  "demo_fs =
     [[''home''] \<mapsto> Dir,
      [''home'', ''user''] \<mapsto> Dir,
      [''home'', ''user'', ''mcp''] \<mapsto> Dir,
      [''home'', ''user'', ''mcp'', ''workspace''] \<mapsto> Dir,
      [''home'', ''user'', ''mcp'', ''workspace'', ''notes.txt''] \<mapsto> File ''old text'']"

section \<open>Text: substrings and stripping\<close>

lemma startswith_iff: "startswith s p \<longleftrightarrow> (\<exists>post. s = p @ post)"
  by (induction s p rule: startswith.induct) auto

lemma str_in_iff: "str_in sub s \<longleftrightarrow> (\<exists>pre post. s = pre @ sub @ post)"
proof (induction s)
  case Nil
  then show ?case by auto
next
  case (Cons c cs)
  show ?case
  proof
    assume "str_in sub (c # cs)"
    then consider "startswith (c # cs) sub" | "str_in sub cs" by auto
    then show "\<exists>pre post. c # cs = pre @ sub @ post"
    proof cases
      case 1
      then obtain post where "c # cs = sub @ post" using startswith_iff by blast
      then have "c # cs = [] @ sub @ post" by simp
      then show ?thesis by blast
    next
      case 2
      then obtain pre post where "cs = pre @ sub @ post" using Cons.IH by blast
      then have "c # cs = (c # pre) @ sub @ post" by simp
      then show ?thesis by blast
    qed
  next
    assume "\<exists>pre post. c # cs = pre @ sub @ post"
    then obtain pre post where eq: "c # cs = pre @ sub @ post" by blast
    show "str_in sub (c # cs)"
    proof (cases pre)
      case Nil
      then have "startswith (c # cs) sub" using eq startswith_iff by auto
      then show ?thesis by simp
    next
      case (Cons a pre')
      then have "cs = pre' @ sub @ post" using eq by simp
      then have "str_in sub cs" using Cons.IH by blast
      then show ?thesis by simp
    qed
  qed
qed

lemma is_rate_limit_iff:
  "is_rate_limit msg \<longleftrightarrow>
     (\<exists>a b. msg = a @ ''429'' @ b) \<or>
     (\<exists>a b. lower msg = a @ ''rate limit'' @ b) \<or>
     (\<exists>a b. lower msg = a @ ''quota'' @ b)"
  unfolding is_rate_limit_def str_in_iff ..

lemma dropWhile_all_iff:
  "(\<forall>x \<in> set (dropWhile P xs). P x) \<longleftrightarrow> (\<forall>x \<in> set xs. P x)"
proof
  assume a: "\<forall>x \<in> set (dropWhile P xs). P x"
  have "dropWhile P xs = []"
  proof (rule ccontr)
    assume n: "dropWhile P xs \<noteq> []"
    then have "\<not> P (hd (dropWhile P xs))" by (rule hd_dropWhile)
    moreover have "hd (dropWhile P xs) \<in> set (dropWhile P xs)" using n by simp
    ultimately show False using a by blast
  qed
  then show "\<forall>x \<in> set xs. P x" by (simp add: dropWhile_eq_Nil_conv)
next
  assume "\<forall>x \<in> set xs. P x"
  then show "\<forall>x \<in> set (dropWhile P xs). P x" by (meson set_dropWhileD)
qed

lemma strip_empty_iff: "strip q = [] \<longleftrightarrow> (\<forall>c \<in> set q. isspace c)"
  by (simp add: strip_def dropWhile_eq_Nil_conv dropWhile_all_iff)


section \<open>The session loop\<close>

text \<open>
  Claim C1. In interactive mode, when dispatching a query raises an error: if the text
  of the error contains "429", or contains "rate limit" or "quota" in any letter case,
  the loop prints the advisory and goes on with the next line of input; if the text
  contains none of the three, the exception leaves the loop, which ends the run with a
  non-zero status. The query of a line is dispatched when it is not the quit word.
\<close>

theorem rate_limit_advisory_else_fatal:
  assumes "lower (strip line) \<noteq> ''quit''"
    and "ainvoke ev (length (dispatched s)) (strip line) = Inl e"
  shows "((\<exists>a b. exc_str e = a @ ''429'' @ b) \<or>
          (\<exists>a b. lower (exc_str e) = a @ ''rate limit'' @ b) \<or>
          (\<exists>a b. lower (exc_str e) = a @ ''quota'' @ b) \<longrightarrow>
            chat_loop ev (line # lines) s =
              chat_loop ev lines
                (s\<lparr>prompts := Suc (prompts s),
                   dispatched := dispatched s @ [strip line],
                   printed := printed s @ [Advisory]\<rparr>)) \<and>
         (\<not> ((\<exists>a b. exc_str e = a @ ''429'' @ b) \<or>
             (\<exists>a b. lower (exc_str e) = a @ ''rate limit'' @ b) \<or>
             (\<exists>a b. lower (exc_str e) = a @ ''quota'' @ b)) \<longrightarrow>
            chat_loop ev (line # lines) s =
              (Raised e, s\<lparr>prompts := Suc (prompts s),
                            dispatched := dispatched s @ [strip line]\<rparr>) \<and>
            exit_status (fst (chat_loop ev (line # lines) s)) \<noteq> 0)"
  unfolding is_rate_limit_iff [symmetric] using assms by (simp add: Let_def)

text \<open>
  C1 at a sample line: the agent that answers with a 429 error gets the advisory and
  the loop goes on to the next line; the agent whose error has no marker ends the run.
\<close>

theorem rate_limit_advisory_else_fatal_witness:
  "lower (strip ''weather in Paris?'') \<noteq> ''quit'' \<and>
   chat_loop (demo_env rate_limited_agent) [''weather in Paris?'', ''quit''] initial_state =
     chat_loop (demo_env rate_limited_agent) [''quit'']
       (initial_state\<lparr>prompts := Suc (prompts initial_state),
          dispatched := dispatched initial_state @ [strip ''weather in Paris?''],
          printed := printed initial_state @ [Advisory]\<rparr>) \<and>
   chat_loop (demo_env failing_agent) [''weather in Paris?'', ''quit''] initial_state =
     (Raised (Exc ''ConnectionError'' ''Connection refused''),
      initial_state\<lparr>prompts := Suc (prompts initial_state),
          dispatched := dispatched initial_state @ [strip ''weather in Paris?'']\<rparr>)"
proof -
  let ?e = "Exc ''RateLimitError'' ''Error code: 429 - Rate limit reached''"
  let ?f = "Exc ''ConnectionError'' ''Connection refused''"
  have h1: "lower (strip ''weather in Paris?'') \<noteq> ''quit''" by code_simp
  have h2: "ainvoke (demo_env rate_limited_agent) (length (dispatched initial_state))
              (strip ''weather in Paris?'') = Inl ?e"
    by (simp add: demo_env_def rate_limited_agent_def)
  have h3: "ainvoke (demo_env failing_agent) (length (dispatched initial_state))
              (strip ''weather in Paris?'') = Inl ?f"
    by (simp add: demo_env_def failing_agent_def)
  have "exc_str ?e = ''Error code: '' @ ''429'' @ '' - Rate limit reached''" by simp
  then have m: "\<exists>a b. exc_str ?e = a @ ''429'' @ b" by blast
  have n1: "\<not> str_in ''429'' (exc_str ?f)" by code_simp
  have n2: "\<not> str_in ''rate limit'' (lower (exc_str ?f))" by code_simp
  have n3: "\<not> str_in ''quota'' (lower (exc_str ?f))" by code_simp
  have n: "\<not> ((\<exists>a b. exc_str ?f = a @ ''429'' @ b) \<or>
             (\<exists>a b. lower (exc_str ?f) = a @ ''rate limit'' @ b) \<or>
             (\<exists>a b. lower (exc_str ?f) = a @ ''quota'' @ b))"
    using n1 n2 n3 unfolding str_in_iff by blast
  show ?thesis
    using h1 m n
      rate_limit_advisory_else_fatal [OF h1 h2, of "[''quit'']"]
      rate_limit_advisory_else_fatal [OF h1 h3, of "[''quit'']"]
    by blast
qed

text \<open>
  Claim C2. In one-shot mode a rate-limit or quota error raised while the single query
  is dispatched is caught at the session loop. The one-shot branch calls
  \<open>agent.ainvoke\<close> outside any handler: on the error with "429" in its text, which
  the interactive loop answers with the advisory, the exception leaves \<open>run_agent\<close>,
  nothing is printed and the exit status is 1.
\<close>

theorem one_shot_rate_limit_uncaught:
  "run_agent (demo_env rate_limited_agent) (Some ''weather in Paris?'') [] =
     (Raised (Exc ''RateLimitError'' ''Error code: 429 - Rate limit reached''),
      initial_state\<lparr>session := close (session initial_state), closes := 1,
         dispatched := [''weather in Paris?'']\<rparr>) \<and>
   printed (snd (run_agent (demo_env rate_limited_agent) (Some ''weather in Paris?'') [])) = [] \<and>
   exit_status (fst (run_agent (demo_env rate_limited_agent) (Some ''weather in Paris?'') [])) = 1 \<and>
   printed (snd (run_agent (demo_env rate_limited_agent) None [''weather in Paris?''])) =
     [Banner, Advisory, Eof_notice] \<and>
   exit_status (fst (run_agent (demo_env rate_limited_agent) None [''weather in Paris?''])) = 0"
  by code_simp

text \<open>
  Claim C3. In interactive mode a line is dispatched exactly when its stripped query is
  not empty and is not the quit word. The loop tests the quit word only: an empty line
  and a line of blanks are passed to the agent as the empty query, which the one-shot
  branch (\<open>if query\<close>) does not do. The quit word, in any letter case, and the end of
  input do end the loop without a dispatch.
\<close>

theorem interactive_empty_query_dispatched:
  "dispatched (snd (run_agent (demo_env echo_agent) None [''''])) = [''''] \<and>
   dispatched (snd (run_agent (demo_env echo_agent) None [''   '', ''Quit'', ''next''])) = [''''] \<and>
   dispatched (snd (run_agent (demo_env echo_agent) None [])) = [] \<and>
   dispatched (snd (run_agent (demo_env echo_agent) (Some ''   '') [])) = []"
  by code_simp




text \<open>
  Where \<open>json.dumps\<close> meets an object it cannot encode natively, it encodes what
  \<open>default\<close> returns for that object.
\<close>

lemma json_dumps_PObj:
  "json_dumps (PObj cls a se re) =
     (case default (PObj cls a se re) of Inl e \<Rightarrow> Inl e | Inr v \<Rightarrow> json_dumps v)"
  by (cases a) (simp_all add: default_def super_default_def split: sum.splits)

text \<open>
  Claim C5. For every message entry with a content payload, the encoder's \<open>default\<close>
  yields exactly the record of two fields, the first (spelled \<open>type\<close> in the code)
  holding the name of the entry's class and the second, \<open>content\<close>, holding the
  payload; an entry without \<open>content\<close> falls back to the stock \<open>default\<close>. In the
  JSON document the entry appears as that record, with the payload encoded in turn.
\<close>

theorem default_two_field_record:
  "(content_of v = Some c \<longrightarrow>
      default v = Inr (PDict [(''type'', PStr (class_name v)), (''content'', c)])) \<and>
   (content_of v = None \<longrightarrow> default v = super_default v) \<and>
   (\<forall>cls se re j. json_dumps c = Inr j \<longrightarrow>
      json_dumps (PObj cls (Some c) se re) =
        Inr (JObj [(''type'', JStr cls), (''content'', j)]))"
  by (simp add: default_def)

theorem default_two_field_record_witness:
  "default (PObj ''AIMessage'' (Some (PStr ''Sunny, 21 C'')) None None) =
     Inr (PDict [(''type'', PStr ''AIMessage''), (''content'', PStr ''Sunny, 21 C'')]) \<and>
   default (PObj ''Blob'' None None None) = super_default (PObj ''Blob'' None None None) \<and>
   json_dumps (PObj ''AIMessage'' (Some (PStr ''Sunny, 21 C'')) None None) =
     Inr (JObj [(''type'', JStr ''AIMessage''), (''content'', JStr ''Sunny, 21 C'')])"
proof -
  have h1: "content_of (PObj ''AIMessage'' (Some (PStr ''Sunny, 21 C'')) None None) =
              Some (PStr ''Sunny, 21 C'')"
    by simp
  have h2: "content_of (PObj ''Blob'' None None None) = None" by simp
  have h3: "json_dumps (PStr ''Sunny, 21 C'') = Inr (JStr ''Sunny, 21 C'')" by simp
  show ?thesis
    using h1 h2 h3
      default_two_field_record
        [of "PObj ''AIMessage'' (Some (PStr ''Sunny, 21 C'')) None None"
            "PStr ''Sunny, 21 C''"]
      default_two_field_record [of "PObj ''Blob'' None None None" "PStr ''Sunny, 21 C''"]
    by simp
qed

text \<open>
  Claim C6, as stated: whenever a query is supplied with the one-shot flag, exactly one
  dispatching and formatting pass is run. A query of blanks is a supplied query
  (\<open>args.once\<close> is not \<open>None\<close>), and no pass is run for it.
\<close>

theorem one_shot_blank_query_no_pass:
  "length (dispatched (snd (run_agent (demo_env echo_agent) (Some ''   '') []))) \<noteq> 1"
  by code_simp

text \<open>
  Claim C6, amended. Once the session is set up, a query supplied with the one-shot
  flag that is not empty after stripping is dispatched exactly once; the interactive
  prompt is never read; and on success, that is when the agent returns a response and
  the formatting of the response returns a text, that text is printed once and the
  program ends with status 0.
\<close>

theorem one_shot_single_pass:
  assumes "setup_ok ev" and "strip q \<noteq> []"
  shows "dispatched (snd (run_agent ev (Some q) lines)) = [strip q] \<and>
         prompts (snd (run_agent ev (Some q) lines)) = 0 \<and>
         (\<forall>r f. ainvoke ev 0 (strip q) = Inr r \<and> format_response r = Inr f \<longrightarrow>
            printed (snd (run_agent ev (Some q) lines)) = [Formatted f] \<and>
            fst (run_agent ev (Some q) lines) = Returned \<and>
            exit_status (fst (run_agent ev (Some q) lines)) = 0)"
  using assms
  by (auto simp: setup_ok_def run_agent_def session_body_def one_shot_def Let_def
      initial_state_def split: sum.splits)

theorem one_shot_single_pass_witness:
  "setup_ok (demo_env echo_agent) \<and> strip '' weather in Paris? '' \<noteq> [] \<and>
   dispatched (snd (run_agent (demo_env echo_agent) (Some '' weather in Paris? '')
     [''ignored''])) = [''weather in Paris?''] \<and>
   prompts (snd (run_agent (demo_env echo_agent) (Some '' weather in Paris? '')
     [''ignored''])) = 0 \<and>
   printed (snd (run_agent (demo_env echo_agent) (Some '' weather in Paris? '')
     [''ignored''])) =
     [Formatted (Json_text (JObj [(''messages'',
        JArr [JObj [(''type'', JStr ''HumanMessage''), (''content'', JStr ''weather in Paris?'')],
              JObj [(''type'', JStr ''AIMessage''), (''content'', JStr ''done'')]])]))] \<and>
   exit_status (fst (run_agent (demo_env echo_agent) (Some '' weather in Paris? '')
     [''ignored''])) = 0"
proof -
  let ?r = "PDict [(''messages'',
              PList [PObj ''HumanMessage'' (Some (PStr ''weather in Paris?'')) None None,
                     PObj ''AIMessage'' (Some (PStr ''done'')) None None])]"
  let ?f = "Json_text (JObj [(''messages'',
        JArr [JObj [(''type'', JStr ''HumanMessage''), (''content'', JStr ''weather in Paris?'')],
              JObj [(''type'', JStr ''AIMessage''), (''content'', JStr ''done'')]])])"
  have st: "strip '' weather in Paris? '' = ''weather in Paris?''" by code_simp
  have h1: "setup_ok (demo_env echo_agent)" by (simp add: setup_ok_def demo_env_def)
  have h2: "strip '' weather in Paris? '' \<noteq> []" by (simp add: st)
  have h3: "ainvoke (demo_env echo_agent) 0 (strip '' weather in Paris? '') = Inr ?r"
    by (simp add: st demo_env_def echo_agent_def)
  have h4: "format_response ?r = Inr ?f" by (simp add: format_response_def)
  note T = one_shot_single_pass [OF h1 h2, of "[''ignored'']"]
  note T3 = T [THEN conjunct2, THEN conjunct2, rule_format, OF conjI [OF h3 h4]]
  show ?thesis
    using h1 h2 T [THEN conjunct1] T [THEN conjunct2, THEN conjunct1] T3
    by (simp add: st)
qed

text \<open>
  Claim C10. In one-shot mode, once the session is set up, a query that is empty or
  consists of white space only is never passed to the agent, nothing is printed, and
  the program ends cleanly with status 0.
\<close>

theorem one_shot_blank_query_clean_exit:
  assumes "setup_ok ev" and "\<forall>c \<in> set q. isspace c"
  shows "run_agent ev (Some q) lines =
           (Returned, initial_state\<lparr>session := close (session initial_state), closes := 1\<rparr>) \<and>
         dispatched (snd (run_agent ev (Some q) lines)) = [] \<and>
         printed (snd (run_agent ev (Some q) lines)) = [] \<and>
         exit_status (fst (run_agent ev (Some q) lines)) = 0"
proof -
  have "strip q = []" using assms(2) by (simp add: strip_empty_iff)
  then show ?thesis
    using assms(1)
    by (simp add: setup_ok_def run_agent_def session_body_def one_shot_def Let_def
        close_def initial_state_def)
qed

theorem one_shot_blank_query_clean_exit_witness:
  "setup_ok (demo_env failing_agent) \<and> strip ''   '' = [] \<and>
   run_agent (demo_env failing_agent) (Some ''   '') [] =
     (Returned, initial_state\<lparr>session := close (session initial_state), closes := 1\<rparr>) \<and>
   exit_status (fst (run_agent (demo_env failing_agent) (Some ''   '') [])) = 0"
proof -
  have h1: "setup_ok (demo_env failing_agent)" by (simp add: setup_ok_def demo_env_def)
  have h2: "\<forall>c \<in> set ''   ''. isspace c" by code_simp
  show ?thesis
    using h1 h2 one_shot_blank_query_clean_exit [OF h1 h2, of "[]"]
    by (simp add: strip_empty_iff)
qed


section \<open>Release of the session\<close>

lemma chat_loop_frame:
  "session (snd (chat_loop ev lines s)) = session s \<and>
   closes (snd (chat_loop ev lines s)) = closes s"
  by (induction lines arbitrary: s) (auto simp: Let_def split: sum.splits)

lemma one_shot_frame:
  "session (snd (one_shot ev q s)) = session s \<and> closes (snd (one_shot ev q s)) = closes s"
  by (auto simp: one_shot_def Let_def split: sum.splits)

lemma session_body_closes: "closes (snd (session_body ev once lines s)) = closes s"
  by (auto simp: session_body_def Let_def chat_loop_frame one_shot_frame
      split: option.splits)

text \<open>
  Claim C8. Closing the session is idempotent, and it is performed on every way out of
  \<open>run_agent\<close>: whatever the mode, the input and the collaborators do, once the tool
  server was started the run ends with the session closed exactly once, the child
  terminated and the channel closed; when the server cannot be started there is no
  child and no channel. So no run leaves a child process or an open channel behind.
\<close>

theorem session_closed_on_every_exit:
  "(stdio_client ev = None \<longrightarrow>
      phase (session (snd (run_agent ev once lines))) = Closed \<and>
      closes (snd (run_agent ev once lines)) = 1) \<and>
   (\<forall>e. stdio_client ev = Some e \<longrightarrow> run_agent ev once lines = (Raised e, initial_state)) \<and>
   \<not> child_running (session (snd (run_agent ev once lines))) \<and>
   \<not> channel_open (session (snd (run_agent ev once lines))) \<and>
   close (close ss) = close ss"
proof -
  have idem: "close (close ss) = close ss" by (simp add: close_def)
  show ?thesis
  proof (cases "stdio_client ev")
    case None
    then show ?thesis
      using idem
      by (simp add: run_agent_def Let_def split_beta session_body_closes close_def
          initial_state_def)
  next
    case (Some e)
    then show ?thesis
      using idem by (simp add: run_agent_def initial_state_def)
  qed
qed

text \<open>
  C8 on the five ways out: the one-shot query answered, the quit word, the end of
  input, a fatal error of the agent, and a handshake that fails.
\<close>

theorem session_closed_on_every_exit_witness:
  "(fst (run_agent (demo_env echo_agent) (Some ''hello'') []) = Returned \<and>
    phase (session (snd (run_agent (demo_env echo_agent) (Some ''hello'') []))) = Closed \<and>
    closes (snd (run_agent (demo_env echo_agent) (Some ''hello'') [])) = 1) \<and>
   (fst (run_agent (demo_env echo_agent) None [''quit'']) = Returned \<and>
    phase (session (snd (run_agent (demo_env echo_agent) None [''quit'']))) = Closed \<and>
    closes (snd (run_agent (demo_env echo_agent) None [''quit''])) = 1) \<and>
   (fst (run_agent (demo_env echo_agent) None []) = Returned \<and>
    phase (session (snd (run_agent (demo_env echo_agent) None []))) = Closed \<and>
    closes (snd (run_agent (demo_env echo_agent) None [])) = 1) \<and>
   (fst (run_agent (demo_env failing_agent) None [''hello'']) =
      Raised (Exc ''ConnectionError'' ''Connection refused'') \<and>
    phase (session (snd (run_agent (demo_env failing_agent) None [''hello'']))) = Closed \<and>
    closes (snd (run_agent (demo_env failing_agent) None [''hello''])) = 1) \<and>
   (fst (run_agent broken_server None []) = Raised (Exc ''McpError'' ''Connection closed'') \<and>
    phase (session (snd (run_agent broken_server None []))) = Closed \<and>
    closes (snd (run_agent broken_server None [])) = 1)"
proof -
  have s1: "stdio_client (demo_env echo_agent) = None" by (simp add: demo_env_def)
  have s2: "stdio_client (demo_env failing_agent) = None" by (simp add: demo_env_def)
  have s3: "stdio_client broken_server = None" by (simp add: broken_server_def)
  have o1: "fst (run_agent (demo_env echo_agent) (Some ''hello'') []) = Returned"
    by code_simp
  have o2: "fst (run_agent (demo_env echo_agent) None [''quit'']) = Returned"
    by code_simp
  have o3: "fst (run_agent (demo_env echo_agent) None []) = Returned"
    by code_simp
  have o4: "fst (run_agent (demo_env failing_agent) None [''hello'']) =
              Raised (Exc ''ConnectionError'' ''Connection refused'')"
    by code_simp
  have o5: "fst (run_agent broken_server None []) =
              Raised (Exc ''McpError'' ''Connection closed'')"
    by code_simp
  show ?thesis
    using s1 s2 s3 o1 o2 o3 o4 o5
      session_closed_on_every_exit [of "demo_env echo_agent" "Some ''hello''" "[]"]
      session_closed_on_every_exit [of "demo_env echo_agent" None "[''quit'']"]
      session_closed_on_every_exit [of "demo_env echo_agent" None "[]"]
      session_closed_on_every_exit [of "demo_env failing_agent" None "[''hello'']"]
      session_closed_on_every_exit [of broken_server None "[]"]
    by blast
qed


section \<open>The file tools\<close>

lemma parents_iff: "q \<in> set (parents p) \<longleftrightarrow> (\<exists>rest. rest \<noteq> [] \<and> p = q @ rest)"
proof
  assume "q \<in> set (parents p)"
  then obtain n where n: "n < length p" "q = take n p" by (auto simp: parents_def)
  then have "p = q @ drop n p" "drop n p \<noteq> []" by simp_all
  then show "\<exists>rest. rest \<noteq> [] \<and> p = q @ rest" by blast
next
  assume "\<exists>rest. rest \<noteq> [] \<and> p = q @ rest"
  then obtain rest where r: "rest \<noteq> []" "p = q @ rest" by blast
  then have "length q < length p" "q = take (length q) p" by simp_all
  then show "q \<in> set (parents p)" by (auto simp: parents_def)
qed

lemma safe_path_Inr:
  assumes "safe_path resolve root rel = Inr t"
  shows "resolve (joinpath root rel) = Inr t \<and>
         (t = root \<or> (\<exists>rest. rest \<noteq> [] \<and> t = root @ rest))"
  using assms unfolding safe_path_def
  by (auto split: sum.splits if_splits simp: parents_iff)

lemma safe_path_rejects:
  assumes "resolve (joinpath root rel) = Inr t" and "t \<noteq> root"
    and "\<not> (\<exists>rest. t = root @ rest)"
  shows "safe_path resolve root rel =
           Inl (Exc ''ValueError'' (''Path must be under workspace: '' @ path_str root))"
  using assms unfolding safe_path_def by (auto simp: parents_iff)

lemma dir_error_None_iff:
  "dir_error fs p = None \<longleftrightarrow> (\<forall>n. 1 \<le> n \<and> n < length p \<longrightarrow> fs (take n p) = Some Dir)"
proof -
  let ?P = "\<lambda>q. fs q \<noteq> Some Dir"
  let ?xs = "map (\<lambda>n. take n p) [1..<length p]"
  have "dir_error fs p = None \<longleftrightarrow> find ?P ?xs = None"
    by (simp add: dir_error_def split: option.splits)
  also have "\<dots> \<longleftrightarrow> \<not> (\<exists>x. x \<in> set ?xs \<and> ?P x)"
    by (rule find_None_iff)
  also have "\<dots> \<longleftrightarrow> (\<forall>n. 1 \<le> n \<and> n < length p \<longrightarrow> fs (take n p) = Some Dir)"
    by auto
  finally show ?thesis .
qed

lemma stat_root: "stat fs [] = Inr Dir"
  by (simp add: stat_def)

text \<open>An entry that exists has a directory as its parent.\<close>

lemma exists_imp_parent_dir:
  assumes "exists fs p"
  shows "stat fs (butlast p) = Inr Dir"
proof (cases "butlast p = []")
  case True
  then show ?thesis by (simp add: stat_root)
next
  case False
  then have p: "p \<noteq> []" by auto
  from assms p have d: "dir_error fs p = None"
    by (auto simp: exists_def stat_def split: option.splits sum.splits)
  have len: "1 \<le> length p - 1" "length p - 1 < length p"
    using False p by (cases p; cases "tl p"; auto)+
  have bl: "butlast p = take (length p - 1) p" by (simp add: butlast_conv_take)
  have "fs (butlast p) = Some Dir"
    using d len unfolding dir_error_None_iff bl by blast
  moreover have "dir_error fs (butlast p) = None"
    unfolding dir_error_None_iff
  proof (intro allI impI)
    fix n assume n: "1 \<le> n \<and> n < length (butlast p)"
    then have nl: "n < length p" by auto
    then have "take n (butlast p) = take n p" by (rule take_butlast)
    moreover note nl
    ultimately show "fs (take n (butlast p)) = Some Dir"
      using d n unfolding dir_error_None_iff by simp
  qed
  ultimately show ?thesis using False by (simp add: stat_def)
qed

lemma mkdir_parents_existing:
  assumes "stat fs p = Inr Dir"
  shows "mkdir_parents fs p = (None, fs)"
proof (cases "p = []")
  case True
  then show ?thesis
    by (subst mkdir_parents.simps) (simp add: os_mkdir_def is_dir_def stat_root)
next
  case False
  with assms have "dir_error fs p = None" "fs p = Some Dir"
    by (auto simp: stat_def split: option.splits)
  then show ?thesis
    using False assms
    by (subst mkdir_parents.simps) (simp add: os_mkdir_def is_dir_def)
qed

text \<open>What the calls that write may change.\<close>

lemma os_mkdir_frame:
  assumes "os_mkdir fs p = (r, fs')" and "fs' q \<noteq> fs q"
  shows "q = p \<and> fs q = None \<and> fs' q = Some Dir"
  using assms
  by (auto simp: os_mkdir_def split: if_splits option.splits)

lemma os_mkdir_error: "os_mkdir fs p = (Some e, fs') \<Longrightarrow> fs' = fs"
  by (auto simp: os_mkdir_def split: if_splits option.splits)

lemma mkdir_exist_ok_frame:
  assumes "mkdir_exist_ok fs p = (r, fs')" and "fs' q \<noteq> fs q"
  shows "q = p \<and> fs q = None \<and> fs' q = Some Dir"
proof -
  obtain r0 fs0 where o: "os_mkdir fs p = (r0, fs0)" by (cases "os_mkdir fs p")
  have "fs' = fs0"
    using assms(1) o
    by (auto simp: mkdir_exist_ok_def split: option.splits os_error.splits if_splits)
  then show ?thesis using os_mkdir_frame [OF o] assms(2) by simp
qed

lemma mkdir_parents_frame:
  "mkdir_parents fs p = (r, fs') \<Longrightarrow> fs' q \<noteq> fs q \<Longrightarrow>
     (\<exists>n\<le>length p. q = take n p) \<and> fs q = None \<and> fs' q = Some Dir"
proof (induction fs p arbitrary: r fs' rule: mkdir_parents.induct)
  case (1 fs p)
  obtain r0 fs0 where o: "os_mkdir fs p = (r0, fs0)" by (cases "os_mkdir fs p")
  have self: "\<exists>n\<le>length p. p = take n p" by (rule exI [of _ "length p"]) simp
  show ?case
  proof (cases "\<exists>x. r0 = Some (FileNotFoundError x) \<and> butlast p \<noteq> p")
    case False
    then have "fs' = fs0"
      using "1.prems"(1) o
      by (subst (asm) mkdir_parents.simps)
         (auto split: option.splits os_error.splits if_splits)
    then show ?thesis using os_mkdir_frame [OF o] "1.prems"(2) self by auto
  next
    case True
    then obtain x where r0: "r0 = Some (FileNotFoundError x)" and np: "butlast p \<noteq> p"
      by blast
    have fs0: "fs0 = fs" using o r0 os_mkdir_error by blast
    obtain r1 fs1 where m: "mkdir_parents fs (butlast p) = (r1, fs1)"
      by (cases "mkdir_parents fs (butlast p)")
    have ih: "fs1 q \<noteq> fs q \<Longrightarrow>
                (\<exists>n\<le>length (butlast p). q = take n (butlast p)) \<and> fs q = None \<and>
                fs1 q = Some Dir"
      using "1.IH" [OF o [symmetric] r0 refl np] m fs0 by simp
    have up: "(\<exists>n\<le>length (butlast p). q = take n (butlast p)) \<Longrightarrow>
                (\<exists>n\<le>length p. q = take n p)"
    proof -
      assume "\<exists>n\<le>length (butlast p). q = take n (butlast p)"
      then obtain n where n: "n \<le> length (butlast p)" "q = take n (butlast p)" by blast
      have nl: "n \<le> length p - 1" using n(1) by simp
      have "take n (butlast p) = take (min n (length p - 1)) p"
        by (simp add: butlast_conv_take)
      then have "take n (butlast p) = take n p" using nl by (simp add: min_absorb1)
      moreover have "n \<le> length p" using nl by simp
      ultimately show ?thesis using n(2) by auto
    qed
    show ?thesis
    proof (cases r1)
      case (Some e1)
      then have "fs' = fs1"
        using "1.prems"(1) o r0 np m fs0 by (subst (asm) mkdir_parents.simps) simp
      then show ?thesis using ih up "1.prems"(2) by simp
    next
      case None
      then have e: "mkdir_exist_ok fs1 p = (r, fs')"
        using "1.prems"(1) o r0 np m fs0 by (subst (asm) mkdir_parents.simps) simp
      show ?thesis
      proof (cases "fs' q = fs1 q")
        case True
        then show ?thesis using ih up "1.prems"(2) by simp
      next
        case False
        from mkdir_exist_ok_frame [OF e False]
        have q: "q = p" "fs1 q = None" "fs' q = Some Dir" by blast+
        have "fs q = None"
        proof (rule ccontr)
          assume "fs q \<noteq> None"
          then have "fs1 q \<noteq> fs q" using q(2) by auto
          then show False using ih q(2) by simp
        qed
        then show ?thesis using q self by simp
      qed
    qed
  qed
qed

lemma write_text_frame:
  assumes "write_text fs p a c = (r, fs')" and "fs' q \<noteq> fs q"
  shows "q = p"
  using assms
  by (auto simp: write_text_def split: if_splits option.splits node.splits)

lemma take_butlast_parents:
  assumes "n \<le> length (butlast t)" and "q = take n (butlast t)"
  shows "q = t \<or> q \<in> set (parents t)"
proof (cases "t = []")
  case True
  then show ?thesis using assms by simp
next
  case False
  then have "n < length t" using assms(1) by (cases t rule: rev_cases) auto
  moreover from this have "q = take n t" using assms(2) by (simp add: take_butlast)
  ultimately show ?thesis by (auto simp: parents_def)
qed

lemma create_file_frame:
  assumes "snd (create_file resolve root fs f c ow) q \<noteq> fs q"
  shows "\<exists>t. safe_path resolve root f = Inr t \<and>
             (q = t \<or> q \<in> set (parents t) \<and> fs q = None \<and>
                      snd (create_file resolve root fs f c ow) q = Some Dir)"
proof (cases "safe_path resolve root f")
  case (Inl e)
  then show ?thesis using assms by (simp add: create_file_def)
next
  case (Inr t)
  obtain r1 fs1 where m: "mkdir_parents fs (butlast t) = (r1, fs1)"
    by (cases "mkdir_parents fs (butlast t)")
  obtain r2 fs2 where w: "write_text fs1 t False c = (r2, fs2)"
    by (cases "write_text fs1 t False c")
  let ?fs' = "snd (create_file resolve root fs f c ow)"
  have cases: "?fs' = fs1 \<or> ?fs' = fs2"
    using Inr m w by (auto simp: create_file_def split: option.splits)
  have anc: "fs1 q \<noteq> fs q \<Longrightarrow>
               (q = t \<or> q \<in> set (parents t)) \<and> fs q = None \<and> fs1 q = Some Dir"
    using mkdir_parents_frame [OF m] take_butlast_parents by blast
  have wr: "fs2 q \<noteq> fs1 q \<Longrightarrow> q = t" using write_text_frame [OF w] by blast
  show ?thesis
  proof (cases "q = t")
    case True
    then show ?thesis using Inr by simp
  next
    case False
    then have "fs2 q = fs1 q" using wr by blast
    then have "?fs' q = fs1 q" using cases by auto
    then show ?thesis using Inr anc assms False by auto
  qed
qed

lemma write_file_frame:
  assumes "snd (write_file resolve root fs f c ap) q \<noteq> fs q"
  shows "\<exists>t. safe_path resolve root f = Inr t \<and>
             (q = t \<or> q \<in> set (parents t) \<and> fs q = None \<and>
                      snd (write_file resolve root fs f c ap) q = Some Dir)"
proof (cases "safe_path resolve root f")
  case (Inl e)
  then show ?thesis using assms by (simp add: write_file_def)
next
  case (Inr t)
  obtain r1 fs1 where m: "mkdir_parents fs (butlast t) = (r1, fs1)"
    by (cases "mkdir_parents fs (butlast t)")
  obtain r2 fs2 where w: "write_text fs1 t ap c = (r2, fs2)"
    by (cases "write_text fs1 t ap c")
  let ?fs' = "snd (write_file resolve root fs f c ap)"
  have cases: "?fs' = fs1 \<or> ?fs' = fs2"
    using Inr m w by (auto simp: write_file_def split: option.splits)
  have anc: "fs1 q \<noteq> fs q \<Longrightarrow>
               (q = t \<or> q \<in> set (parents t)) \<and> fs q = None \<and> fs1 q = Some Dir"
    using mkdir_parents_frame [OF m] take_butlast_parents by blast
  have wr: "fs2 q \<noteq> fs1 q \<Longrightarrow> q = t" using write_text_frame [OF w] by blast
  show ?thesis
  proof (cases "q = t")
    case True
    then show ?thesis using Inr by simp
  next
    case False
    then have "fs2 q = fs1 q" using wr by blast
    then have "?fs' q = fs1 q" using cases by auto
    then show ?thesis using Inr anc assms False by auto
  qed
qed

text \<open>
  Claim C7. The path resolution of the file tools keeps every access inside the
  workspace root: for every path string a caller supplies, \<open>_safe_path\<close> either
  returns the resolved path, which then is the root or lies strictly under it, or
  raises; a resolved path that is neither is always rejected. A rejected path reaches
  no file operation: each tool returns the text of the error and leaves the file system
  as it was. When a tool does change the file system, it changes the checked path
  itself or creates a directory, missing so far, on the way to it.
\<close>

theorem safe_path_contained:
  "(\<forall>t. safe_path resolve root rel = Inr t \<longrightarrow>
      resolve (joinpath root rel) = Inr t \<and>
      (t = root \<or> (\<exists>rest. rest \<noteq> [] \<and> t = root @ rest))) \<and>
   (\<forall>t. resolve (joinpath root rel) = Inr t \<and> t \<noteq> root \<and> \<not> (\<exists>rest. t = root @ rest) \<longrightarrow>
      safe_path resolve root rel =
        Inl (Exc ''ValueError'' (''Path must be under workspace: '' @ path_str root))) \<and>
   (\<forall>e. safe_path resolve root rel = Inl e \<longrightarrow>
      create_file resolve root fs rel content overwrite = (exc_str e, fs) \<and>
      write_file resolve root fs rel content append_mode = (exc_str e, fs) \<and>
      read_file resolve root fs rel max_chars = exc_str e) \<and>
   (\<forall>q. snd (create_file resolve root fs rel content overwrite) q \<noteq> fs q \<longrightarrow>
      (\<exists>t. safe_path resolve root rel = Inr t \<and>
           (q = t \<or> q \<in> set (parents t) \<and> fs q = None \<and>
                    snd (create_file resolve root fs rel content overwrite) q = Some Dir))) \<and>
   (\<forall>q. snd (write_file resolve root fs rel content append_mode) q \<noteq> fs q \<longrightarrow>
      (\<exists>t. safe_path resolve root rel = Inr t \<and>
           (q = t \<or> q \<in> set (parents t) \<and> fs q = None \<and>
                    snd (write_file resolve root fs rel content append_mode) q = Some Dir)))"
proof (intro conjI allI impI)
  fix t assume "safe_path resolve root rel = Inr t"
  then show "resolve (joinpath root rel) = Inr t"
    and "t = root \<or> (\<exists>rest. rest \<noteq> [] \<and> t = root @ rest)"
    using safe_path_Inr by blast+
next
  fix t
  assume "resolve (joinpath root rel) = Inr t \<and> t \<noteq> root \<and> \<not> (\<exists>rest. t = root @ rest)"
  then show "safe_path resolve root rel =
               Inl (Exc ''ValueError'' (''Path must be under workspace: '' @ path_str root))"
    using safe_path_rejects by blast
next
  fix e assume e: "safe_path resolve root rel = Inl e"
  show "create_file resolve root fs rel content overwrite = (exc_str e, fs)"
    using e by (simp add: create_file_def)
  show "write_file resolve root fs rel content append_mode = (exc_str e, fs)"
    using e by (simp add: write_file_def)
  show "read_file resolve root fs rel max_chars = exc_str e"
    using e by (simp add: read_file_def)
next
  fix q assume "snd (create_file resolve root fs rel content overwrite) q \<noteq> fs q"
  then show "\<exists>t. safe_path resolve root rel = Inr t \<and>
      (q = t \<or> q \<in> set (parents t) \<and> fs q = None \<and>
               snd (create_file resolve root fs rel content overwrite) q = Some Dir)"
    by (rule create_file_frame)
next
  fix q assume "snd (write_file resolve root fs rel content append_mode) q \<noteq> fs q"
  then show "\<exists>t. safe_path resolve root rel = Inr t \<and>
      (q = t \<or> q \<in> set (parents t) \<and> fs q = None \<and>
               snd (write_file resolve root fs rel content append_mode) q = Some Dir)"
    by (rule write_file_frame)
qed

text \<open>
  C7 on a file system without symbolic links: a path that steps out of the workspace
  through \<open>..\<close> is rejected and \<open>create_file\<close> touches nothing, and a path that steps
  down and up again inside the workspace resolves under the root.
\<close>

theorem safe_path_contained_witness:
  "safe_path resolve_lexical demo_root ''../../secrets.txt'' =
     Inl (Exc ''ValueError'' ''Path must be under workspace: /home/user/mcp/workspace'') \<and>
   create_file resolve_lexical demo_root demo_fs ''../../secrets.txt'' ''x'' True =
     (''Path must be under workspace: /home/user/mcp/workspace'', demo_fs) \<and>
   safe_path resolve_lexical demo_root ''docs/../notes.txt'' = Inr (demo_root @ [''notes.txt'']) \<and>
   resolve_lexical (joinpath demo_root ''docs/../notes.txt'') = Inr (demo_root @ [''notes.txt''])"
proof -
  let ?e = "Exc ''ValueError'' ''Path must be under workspace: /home/user/mcp/workspace''"
  have h1: "safe_path resolve_lexical demo_root ''../../secrets.txt'' = Inl ?e"
    by code_simp
  have h2: "safe_path resolve_lexical demo_root ''docs/../notes.txt'' =
              Inr (demo_root @ [''notes.txt''])"
    by code_simp
  note rejected =
    safe_path_contained
      [of resolve_lexical demo_root "''../../secrets.txt''" demo_fs "''x''" True False 0,
       THEN conjunct2, THEN conjunct2, THEN conjunct1, rule_format, OF h1, THEN conjunct1]
  note accepted =
    safe_path_contained
      [of resolve_lexical demo_root "''docs/../notes.txt''" demo_fs "''x''" True False 0,
       THEN conjunct1, rule_format, OF h2, THEN conjunct1]
  have c: "create_file resolve_lexical demo_root demo_fs ''../../secrets.txt'' ''x'' True =
             (''Path must be under workspace: /home/user/mcp/workspace'', demo_fs)"
    using rejected by (simp only: exc.sel)
  show ?thesis
    by (intro conjI) (rule h1, rule c, rule h2, rule accepted)
qed

text \<open>
  Claim C9. Whenever \<open>create_file\<close> is called without \<open>overwrite\<close> on a name whose
  resolved path already exists, it returns the "already exists" message and the file
  system, hence the text of the existing file, is left exactly as it was.
\<close>

theorem create_file_keeps_existing:
  assumes "safe_path resolve root filename = Inr target" and "exists fs target"
  shows "create_file resolve root fs filename content False =
           (''File already exists: '' @ filename @ '' (set overwrite=true to replace)'', fs)"
  using assms
  by (simp add: create_file_def mkdir_parents_existing [OF exists_imp_parent_dir])

theorem create_file_keeps_existing_witness:
  "exists demo_fs (demo_root @ [''notes.txt'']) \<and>
   create_file resolve_lexical demo_root demo_fs ''notes.txt'' ''new text'' False =
     (''File already exists: notes.txt (set overwrite=true to replace)'', demo_fs) \<and>
   demo_fs (demo_root @ [''notes.txt'']) = Some (File ''old text'')"
proof -
  have h1: "safe_path resolve_lexical demo_root ''notes.txt'' = Inr (demo_root @ [''notes.txt''])"
    by code_simp
  have h2: "exists demo_fs (demo_root @ [''notes.txt''])" by code_simp
  have h3: "demo_fs (demo_root @ [''notes.txt'']) = Some (File ''old text'')"
    by (simp add: demo_fs_def demo_root_def)
  show ?thesis
    using h2 h3 create_file_keeps_existing [OF h1 h2, of "''new text''"] by simp
qed

end
